theory Spec2Isabelle
  imports Main "HOL-Library.Word"
begin

section \<open>Pet water intake monitor: the sketch as a state machine with a call trace\<close>

text \<open>
  The sketch \<^verbatim>\<open>Water_Monitoring_System_code.ino\<close> has two entry points, \<^verbatim>\<open>setup\<close> and
  \<^verbatim>\<open>loop\<close>, a handful of global variables and many calls into device libraries (SD, RTClib,
  DHT, NeoPixel, the Arduino core). The embedding keeps the globals in a record, takes what
  the devices answer as an explicit input, and returns every library call, in program order,
  as a list of events. \<^verbatim>\<open>unsigned long\<close> and \<^verbatim>\<open>uint32_t\<close> are 32-bit words: subtraction
  wraps, comparison is unsigned.
\<close>

subsection \<open>Data\<close>

type_synonym u32 = "32 word"

text \<open>
  A float returned by the DHT library: \<^verbatim>\<open>NAN\<close> when the read failed, otherwise a finite
  value. The DHT22 delivers tenths, so a finite value is kept as its number of tenths; the
  sketch never computes with it.
\<close>

datatype dht_float = NaN | Tenths int

text \<open>The fields of RTClib's \<^verbatim>\<open>DateTime\<close> that the sketch reads.\<close>

record DateTime =
  unixtime :: u32
  year :: nat
  month :: nat
  day :: nat
  hour :: nat
  minute :: nat
  second :: nat

text \<open>
  What one \<^verbatim>\<open>print\<close> call on the log file is given. \<open>EOL\<close> is the line end that
  \<^verbatim>\<open>println\<close> adds after its argument.
\<close>

datatype item = PU32 u32 | PDec nat | PInt int | PFloat dht_float | PStr string | EOL

type_synonym colour = "nat \<times> nat \<times> nat"

datatype pin_mode = INPUT | OUTPUT

text \<open>One event per library call; a call that returns a value carries the value returned.\<close>

datatype event =
    SerialBegin nat
  | SerialPrint string
  | SerialPrintln string
  | DhtBegin
  | PinMode nat pin_mode
  | StripBegin
  | StripSetBrightness nat
  | StripShow
  | StripFill colour
  | StripClear
  | Delay nat
  | SdBegin nat bool
  | SdExists string bool
  | SdOpen string bool
  | WireBegin
  | RtcBegin bool
  | RtcNow DateTime
  | Millis u32
  | AnalogRead int
  | ReadHumidity dht_float
  | ReadTemperature dht_float
  | DigitalRead nat bool
  | FilePrint item
  | FilePrintln item
  | FileFlush

text \<open>
  The global variables. \<open>logfile\<close> is the \<^verbatim>\<open>File\<close> object: \<open>None\<close> while it is not
  open (as declared, or after an \<^verbatim>\<open>SD.open\<close> that failed), otherwise the name it was
  opened under.
\<close>

record state =
  syncTime :: u32
  startMillis :: u32
  currentMillis :: u32
  FSRValue :: int
  humValue :: dht_float
  tempValue :: dht_float
  logfile :: "string option"

text \<open>Globals of static storage start at zero; the \<^verbatim>\<open>File\<close> starts closed.\<close>

definition initial :: state where
  "initial = \<lparr> syncTime = 0, startMillis = 0, currentMillis = 0, FSRValue = 0,
               humValue = Tenths 0, tempValue = Tenths 0, logfile = None \<rparr>"

text \<open>What the devices answer during \<^verbatim>\<open>setup\<close>.\<close>

record boot =
  sd_begin :: bool
  sd_exists :: "string \<Rightarrow> bool"
  sd_open :: "string \<Rightarrow> bool"
  rtc_begin :: bool

text \<open>
  What the devices answer during one pass of \<^verbatim>\<open>loop\<close>, one field per reading call, named
  by the source line of the call. A field whose call is not reached in a pass is not looked
  at.
\<close>

record readings =
  millis83 :: u32
  millis89 :: u32
  rtc_now :: DateTime
  fsr111 :: int
  hum112 :: dht_float
  temp113 :: dht_float
  millis124 :: u32
  millis125 :: u32
  fsr134 :: int
  motion139 :: bool

subsection \<open>Constants\<close>

definition SYNC_INTERVAL :: u32 where "SYNC_INTERVAL = 600000"
definition ten_mins :: u32 where "ten_mins = 600000"
definition chipSelect :: nat where "chipSelect = 10"
definition MOTION_PIN :: nat where "MOTION_PIN = 5"
definition TEMP_HUMID_PIN :: nat where "TEMP_HUMID_PIN = 7"
definition FSR_empty_bowl :: int where "FSR_empty_bowl = 940"
definition white :: colour where "white = (127, 127, 127)"
definition red :: colour where "red = (255, 0, 0)"
definition header :: string where
  "header = ''millis,stamp,datetime,temp_(C),humidity%,fsr_reading''"

subsection \<open>The indicator effects\<close>

definition RefillJug :: "event list" where
  "RefillJug = [StripFill red, StripShow, Delay 500, StripClear, StripShow, Delay 500]"

definition WhiteLight :: "event list" where
  "WhiteLight = [StripFill white, StripShow, Delay 10000, StripClear, StripShow]"

subsection \<open>Start-up\<close>

definition initSDcard :: "boot \<Rightarrow> event list" where
  "initSDcard b =
     [SerialPrint ''Initializing SD card...'', PinMode 10 OUTPUT, SdBegin chipSelect (sd_begin b)]
     @ (if \<not> sd_begin b then [SerialPrintln ''Card failed, or not present'']
        else [SerialPrintln ''card initialized.''])"

text \<open>
  The name probed in round \<open>i\<close> of \<^verbatim>\<open>createFile\<close>: the array \<^verbatim>\<open>"MLOG00.CSV"\<close> with
  positions 4 and 5 overwritten.
\<close>

definition filename :: "nat \<Rightarrow> string" where
  "filename i = (''MLOG00.CSV'')
      [4 := char_of (i div 10 + of_char (CHR ''0'')),
       5 := char_of (i mod 10 + of_char (CHR ''0''))]"

text \<open>
  The \<^verbatim>\<open>for\<close> loop of \<^verbatim>\<open>createFile\<close> from round \<open>i\<close> on: the calls made and the new value
  of \<open>logfile\<close> (\<open>lf\<close> when no file is opened).
\<close>

function createFile_from :: "boot \<Rightarrow> string option \<Rightarrow> nat \<Rightarrow> event list \<times> string option" where
  "createFile_from b lf i =
     (if i < 100 then
        (if \<not> sd_exists b (filename i) then
           ([SdExists (filename i) False, SdOpen (filename i) (sd_open b (filename i))],
            if sd_open b (filename i) then Some (filename i) else None)
         else
           (let (ev, lf') = createFile_from b lf (i + 1)
            in (SdExists (filename i) True # ev, lf')))
      else ([], lf))"
  by pat_completeness auto
termination
  by (relation "measure (\<lambda>(b, lf, i). 100 - i)") auto

declare createFile_from.simps [simp del]

definition createFile :: "boot \<Rightarrow> state \<Rightarrow> event list \<times> state" where
  "createFile b s =
     (let (ev, lf) = createFile_from b (logfile s) 0 in (ev, s\<lparr>logfile := lf\<rparr>))"

definition initRTC :: "boot \<Rightarrow> event list" where
  "initRTC b =
     [WireBegin, RtcBegin (rtc_begin b)]
     @ (if \<not> rtc_begin b then [FilePrintln (PStr ''RTC failed'')] else [])"

definition setup_sketch :: "boot \<Rightarrow> state \<Rightarrow> event list \<times> state" where
  "setup_sketch b s =
     (let ev1 = [SerialBegin 9600, DhtBegin,
                 PinMode MOTION_PIN INPUT, PinMode TEMP_HUMID_PIN INPUT,
                 StripBegin, StripSetBrightness 50, StripShow];
          ev2 = initSDcard b;
          (ev3, s') = createFile b s;
          ev4 = initRTC b
      in (ev1 @ ev2 @ ev3 @ ev4 @ [FilePrintln (PStr header)], s'))"

subsection \<open>One pass of the loop\<close>

text \<open>The test of line 84 and the test of line 124 (on the state the pass starts in).\<close>

definition logging_due :: "state \<Rightarrow> readings \<Rightarrow> bool" where
  "logging_due s r \<longleftrightarrow> ten_mins \<le> millis83 r - startMillis s"

definition flush_skipped :: "state \<Rightarrow> readings \<Rightarrow> bool" where
  "flush_skipped s r \<longleftrightarrow> millis124 r - syncTime s < SYNC_INTERVAL"

text \<open>Lines 89 to 121: the calls that write one record.\<close>

definition log_sample :: "readings \<Rightarrow> event list" where
  "log_sample r =
     [Millis (millis89 r),
      FilePrint (PU32 (millis89 r)),
      FilePrint (PStr '', ''),
      RtcNow (rtc_now r),
      FilePrint (PU32 (unixtime (rtc_now r))),
      FilePrint (PStr '', ''),
      FilePrint (PDec (year (rtc_now r))),
      FilePrint (PStr ''/''),
      FilePrint (PDec (month (rtc_now r))),
      FilePrint (PStr ''/''),
      FilePrint (PDec (day (rtc_now r))),
      FilePrint (PStr '' ''),
      FilePrint (PDec (hour (rtc_now r))),
      FilePrint (PStr '':''),
      FilePrint (PDec (minute (rtc_now r))),
      FilePrint (PStr '':''),
      FilePrint (PDec (second (rtc_now r))),
      AnalogRead (fsr111 r),
      ReadHumidity (hum112 r),
      ReadTemperature (temp113 r),
      FilePrint (PStr '', ''),
      FilePrint (PFloat (temp113 r)),
      FilePrint (PStr '', ''),
      FilePrint (PFloat (hum112 r)),
      FilePrint (PStr '', ''),
      FilePrintln (PInt (fsr111 r))]"

text \<open>Lines 134 to 142: the reactive check.\<close>

definition reactive :: "state \<Rightarrow> readings \<Rightarrow> event list \<times> state" where
  "reactive s r =
     (let s1 = s\<lparr>FSRValue := fsr134 r\<rparr>
      in (AnalogRead (fsr134 r) #
            (if FSRValue s1 \<le> FSR_empty_bowl then RefillJug
             else DigitalRead MOTION_PIN (motion139 r) #
                    (if motion139 r then WhiteLight else [])),
          s1))"

text \<open>
  \<^verbatim>\<open>loop\<close>. The \<^verbatim>\<open>return\<close> of line 124 leaves the function from inside the \<^verbatim>\<open>if\<close> of
  line 84: lines 125 to 142 are not reached in that pass.
\<close>

definition loop :: "state \<Rightarrow> readings \<Rightarrow> event list \<times> state" where
  "loop s r =
     (let s1 = s\<lparr>currentMillis := millis83 r\<rparr> in
      if ten_mins \<le> currentMillis s1 - startMillis s1 then
        (let s2 = s1\<lparr>FSRValue := fsr111 r, humValue := hum112 r, tempValue := temp113 r\<rparr>;
             ev = Millis (millis83 r) # log_sample r @ [Millis (millis124 r)]
         in if millis124 r - syncTime s2 < SYNC_INTERVAL then (ev, s2)
            else
              (let s3 = s2\<lparr>syncTime := millis125 r\<rparr>;
                   s4 = s3\<lparr>startMillis := currentMillis s3\<rparr>;
                   (ev', s5) = reactive s4 r
               in (ev @ [Millis (millis125 r), FileFlush, Delay 2000] @ ev', s5)))
      else
        (let (ev', s2) = reactive s1 r in (Millis (millis83 r) # ev', s2)))"

text \<open>Consecutive passes, one \<open>readings\<close> per pass.\<close>

fun run :: "state \<Rightarrow> readings list \<Rightarrow> event list \<times> state" where
  "run s [] = ([], s)"
| "run s (r # rs) =
     (let (ev, s') = loop s r; (evs, s'') = run s' rs in (ev @ evs, s''))"

text \<open>The values of \<^verbatim>\<open>currentMillis\<close> at which the passes of a run start a logging tick.\<close>

fun tick_starts :: "state \<Rightarrow> readings list \<Rightarrow> u32 list" where
  "tick_starts s [] = []"
| "tick_starts s (r # rs) =
     (if logging_due s r then [millis83 r] else []) @ tick_starts (snd (loop s r)) rs"

subsection \<open>Reading a trace\<close>

text \<open>What a trace hands to the log file, call by call.\<close>

fun file_items :: "event list \<Rightarrow> item list" where
  "file_items [] = []"
| "file_items (FilePrint x # es) = x # file_items es"
| "file_items (FilePrintln x # es) = x # EOL # file_items es"
| "file_items (e # es) = file_items es"

text \<open>What a trace sends to the serial port.\<close>

fun serial_out :: "event list \<Rightarrow> string list" where
  "serial_out [] = []"
| "serial_out (SerialPrint x # es) = x # serial_out es"
| "serial_out (SerialPrintln x # es) = x # serial_out es"
| "serial_out (e # es) = serial_out es"

text \<open>The calls on the light strip.\<close>

fun is_strip :: "event \<Rightarrow> bool" where
  "is_strip StripShow = True"
| "is_strip (StripFill c) = True"
| "is_strip StripClear = True"
| "is_strip e = False"

definition strip_calls :: "event list \<Rightarrow> event list" where
  "strip_calls es = filter is_strip es"

text \<open>The calls that initialise the card and the clock.\<close>

fun is_init :: "event \<Rightarrow> bool" where
  "is_init (SdBegin p ok) = True"
| "is_init (RtcBegin ok) = True"
| "is_init e = False"

text \<open>
  Modelled from the spec: the SD library is not part of the repository. Section 4.1 says
  that appends with an unready storage handle are no-ops; so what reaches the card through a
  handle is nothing when the handle is not open, and the items printed otherwise.
\<close>

definition written :: "string option \<Rightarrow> event list \<Rightarrow> item list" where
  "written h es = (case h of None \<Rightarrow> [] | Some f \<Rightarrow> file_items es)"

text \<open>Cutting a list at every occurrence of a separator.\<close>

fun split_on :: "'a \<Rightarrow> 'a list \<Rightarrow> 'a list list" where
  "split_on d [] = [ [] ]"
| "split_on d (x # xs) =
     (if x = d then [] # split_on d xs
      else (case split_on d xs of ys # yss \<Rightarrow> (x # ys) # yss | [] \<Rightarrow> [ [x] ]))"

subsection \<open>Concrete boots, states and passes\<close>

text \<open>An empty card with a working clock, and a moment the clock may report.\<close>

definition fresh_card :: boot where
  "fresh_card = \<lparr> sd_begin = True, sd_exists = (\<lambda>f. False), sd_open = (\<lambda>f. True),
                  rtc_begin = True \<rparr>"

definition sample_time :: DateTime where
  "sample_time = \<lparr> unixtime = 1700000000, year = 2023, month = 11, day = 14,
                   hour = 22, minute = 13, second = 20 \<rparr>"

text \<open>
  The first logging pass after start-up: line 83 reads 600000 ms, the record is written
  within 50 ms, the bowl is full and nothing moves.
\<close>

definition pass1 :: readings where
  "pass1 = \<lparr> millis83 = 600000, millis89 = 600000, rtc_now = sample_time, fsr111 = 1000,
             hum112 = Tenths 451, temp113 = Tenths 234, millis124 = 600050,
             millis125 = 600050, fsr134 = 1000, motion139 = False \<rparr>"

definition after_pass1 :: state where
  "after_pass1 = \<lparr> syncTime = 600050, startMillis = 600000, currentMillis = 600000,
                   FSRValue = 1000, humValue = Tenths 451, tempValue = Tenths 234,
                   logfile = Some ''MLOG00.CSV'' \<rparr>"

text \<open>
  Ten minutes later: a pass that starts at 1200000 ms and reaches line 124 after 40 ms, and
  the pass that follows it at once.
\<close>

definition pass2 :: readings where
  "pass2 = \<lparr> millis83 = 1200000, millis89 = 1200000, rtc_now = sample_time, fsr111 = 1000,
             hum112 = Tenths 451, temp113 = Tenths 234, millis124 = 1200040,
             millis125 = 1200040, fsr134 = 1000, motion139 = False \<rparr>"

definition pass3 :: readings where
  "pass3 = \<lparr> millis83 = 1200041, millis89 = 1200041, rtc_now = sample_time, fsr111 = 1000,
             hum112 = Tenths 451, temp113 = Tenths 234, millis124 = 1200085,
             millis125 = 1200085, fsr134 = 1000, motion139 = False \<rparr>"


text \<open>Passes that do not log: the bowl full and motion seen, full and still, and at the threshold.\<close>

definition idle_pass :: readings where
  "idle_pass = \<lparr> millis83 = 1000, millis89 = 1000, rtc_now = sample_time, fsr111 = 1000,
             hum112 = Tenths 451, temp113 = Tenths 234, millis124 = 1000,
             millis125 = 1000, fsr134 = 1000, motion139 = True \<rparr>"

definition still_pass :: readings where
  "still_pass = \<lparr> millis83 = 1000, millis89 = 1000, rtc_now = sample_time, fsr111 = 1000,
             hum112 = Tenths 451, temp113 = Tenths 234, millis124 = 1000,
             millis125 = 1000, fsr134 = 941, motion139 = False \<rparr>"

definition empty_pass :: readings where
  "empty_pass = \<lparr> millis83 = 1000, millis89 = 1000, rtc_now = sample_time, fsr111 = 1000,
             hum112 = Tenths 451, temp113 = Tenths 234, millis124 = 1000,
             millis125 = 1000, fsr134 = 940, motion139 = False \<rparr>"

text \<open>A first logging pass with the bowl low and motion seen.\<close>

definition alert_pass :: readings where
  "alert_pass = \<lparr> millis83 = 600000, millis89 = 600000, rtc_now = sample_time, fsr111 = 1000,
             hum112 = Tenths 451, temp113 = Tenths 234, millis124 = 600050,
             millis125 = 600050, fsr134 = 900, motion139 = True \<rparr>"

text \<open>A first logging pass in which both reads of the DHT fail.\<close>

definition nan_pass :: readings where
  "nan_pass = \<lparr> millis83 = 600000, millis89 = 600001, rtc_now = sample_time, fsr111 = 987,
             hum112 = NaN, temp113 = NaN, millis124 = 600050,
             millis125 = 600051, fsr134 = 1000, motion139 = False \<rparr>"

text \<open>
  Cards and clocks: six logs already on the card, every name taken, a clock that does not
  answer, and a board on which neither the card nor the clock answers.
\<close>

definition six_files_card :: boot where
  "six_files_card = \<lparr> sd_begin = True,
      sd_exists = (\<lambda>f. f \<in> set [''MLOG00.CSV'', ''MLOG01.CSV'', ''MLOG02.CSV'',
                                 ''MLOG03.CSV'', ''MLOG04.CSV'', ''MLOG05.CSV'']),
      sd_open = (\<lambda>f. True), rtc_begin = True \<rparr>"

definition full_card :: boot where
  "full_card = \<lparr> sd_begin = True, sd_exists = (\<lambda>f. True), sd_open = (\<lambda>f. True),
                 rtc_begin = True \<rparr>"

definition dead_clock :: boot where
  "dead_clock = \<lparr> sd_begin = True, sd_exists = (\<lambda>f. False), sd_open = (\<lambda>f. True),
                  rtc_begin = False \<rparr>"

definition dead_board :: boot where
  "dead_board = \<lparr> sd_begin = False, sd_exists = (\<lambda>f. False), sd_open = (\<lambda>f. False),
                  rtc_begin = False \<rparr>"

section \<open>Properties\<close>

subsection \<open>The three paths through one pass\<close>

lemma loop_no_tick:
  "\<not> logging_due s r \<Longrightarrow>
   loop s r = (Millis (millis83 r) # fst (reactive s r),
               s\<lparr>currentMillis := millis83 r, FSRValue := fsr134 r\<rparr>)"
  by (simp add: loop_def logging_due_def reactive_def Let_def)

lemma loop_tick_return:
  "logging_due s r \<Longrightarrow> flush_skipped s r \<Longrightarrow>
   loop s r = (Millis (millis83 r) # log_sample r @ [Millis (millis124 r)],
               s\<lparr>currentMillis := millis83 r, FSRValue := fsr111 r,
                  humValue := hum112 r, tempValue := temp113 r\<rparr>)"
  by (simp add: loop_def logging_due_def flush_skipped_def Let_def)

lemma loop_tick_flush:
  "logging_due s r \<Longrightarrow> \<not> flush_skipped s r \<Longrightarrow>
   loop s r = (Millis (millis83 r) # log_sample r
                 @ [Millis (millis124 r), Millis (millis125 r), FileFlush, Delay 2000]
                 @ fst (reactive s r),
               s\<lparr>currentMillis := millis83 r, FSRValue := fsr134 r,
                  humValue := hum112 r, tempValue := temp113 r,
                  syncTime := millis125 r, startMillis := millis83 r\<rparr>)"
  by (simp add: loop_def logging_due_def flush_skipped_def reactive_def Let_def)

lemma filename_0: "filename 0 = ''MLOG00.CSV''"
  by code_simp

lemma setup_fresh:
  "snd (setup_sketch fresh_card initial) = initial\<lparr>logfile := Some ''MLOG00.CSV''\<rparr>"
  by (simp add: setup_sketch_def createFile_def createFile_from.simps fresh_card_def filename_0)


subsection \<open>Reading traces piecewise\<close>

lemma file_items_append: "file_items (xs @ ys) = file_items xs @ file_items ys"
  by (induction xs rule: file_items.induct) simp_all

lemma serial_out_append: "serial_out (xs @ ys) = serial_out xs @ serial_out ys"
  by (induction xs rule: serial_out.induct) simp_all

lemma strip_calls_append: "strip_calls (xs @ ys) = strip_calls xs @ strip_calls ys"
  by (simp add: strip_calls_def)

lemma file_items_reactive: "file_items (fst (reactive s r)) = []"
  by (simp add: reactive_def RefillJug_def WhiteLight_def Let_def)

lemma file_items_log_sample:
  "file_items (log_sample r) =
     [PU32 (millis89 r), PStr '', '',
      PU32 (unixtime (rtc_now r)), PStr '', '',
      PDec (year (rtc_now r)), PStr ''/'', PDec (month (rtc_now r)), PStr ''/'',
      PDec (day (rtc_now r)), PStr '' '', PDec (hour (rtc_now r)), PStr '':'',
      PDec (minute (rtc_now r)), PStr '':'', PDec (second (rtc_now r)), PStr '', '',
      PFloat (temp113 r), PStr '', '',
      PFloat (hum112 r), PStr '', '',
      PInt (fsr111 r), EOL]"
  by (simp add: log_sample_def)

lemma file_items_tick:
  "logging_due s r \<Longrightarrow> file_items (fst (loop s r)) = file_items (log_sample r)"
  by (cases "flush_skipped s r")
    (simp_all add: loop_tick_return loop_tick_flush file_items_append file_items_reactive)

lemma file_items_idle:
  "\<not> logging_due s r \<Longrightarrow> file_items (fst (loop s r)) = []"
  by (simp add: loop_no_tick file_items_reactive)

lemma fields_log_sample:
  "split_on (PStr '', '') (file_items (log_sample r)) =
     [ [PU32 (millis89 r)],
      [PU32 (unixtime (rtc_now r))],
      [PDec (year (rtc_now r)), PStr ''/'', PDec (month (rtc_now r)), PStr ''/'',
       PDec (day (rtc_now r)), PStr '' '', PDec (hour (rtc_now r)), PStr '':'',
       PDec (minute (rtc_now r)), PStr '':'', PDec (second (rtc_now r))],
      [PFloat (temp113 r)],
      [PFloat (hum112 r)],
      [PInt (fsr111 r), EOL] ]"
  by (simp add: file_items_log_sample)

lemma strip_calls_log_sample: "strip_calls (log_sample r) = []"
  by (simp add: strip_calls_def log_sample_def)

lemma strip_calls_loop:
  "\<not> (logging_due s r \<and> flush_skipped s r) \<Longrightarrow>
   strip_calls (fst (loop s r)) = strip_calls (fst (reactive s r))"
  by (cases "logging_due s r")
    (simp_all add: loop_no_tick loop_tick_flush strip_calls_def log_sample_def)

lemma loop_ends_with_reactive:
  "\<not> (logging_due s r \<and> flush_skipped s r) \<Longrightarrow>
   \<exists>pre. fst (loop s r) = pre @ fst (reactive s r) \<and> strip_calls pre = []"
proof (cases "logging_due s r")
  case False
  then have "fst (loop s r) = [Millis (millis83 r)] @ fst (reactive s r)"
    by (simp add: loop_no_tick)
  moreover have "strip_calls [Millis (millis83 r)] = []"
    by (simp add: strip_calls_def)
  ultimately show ?thesis by blast
next
  case True
  assume "\<not> (logging_due s r \<and> flush_skipped s r)"
  with True have "fst (loop s r) =
      (Millis (millis83 r) # log_sample r
         @ [Millis (millis124 r), Millis (millis125 r), FileFlush, Delay 2000])
      @ fst (reactive s r)"
    by (simp add: loop_tick_flush)
  moreover have "strip_calls (Millis (millis83 r) # log_sample r
         @ [Millis (millis124 r), Millis (millis125 r), FileFlush, Delay 2000]) = []"
    by (simp add: strip_calls_def log_sample_def)
  ultimately show ?thesis by blast
qed

lemma flush_not_in_log_sample: "FileFlush \<notin> set (log_sample r)"
  by (simp add: log_sample_def)

lemma flush_not_in_reactive: "FileFlush \<notin> set (fst (reactive s r))"
  by (simp add: reactive_def RefillJug_def WhiteLight_def Let_def)

lemma count_flush_log_sample: "count_list (log_sample r) FileFlush = 0"
  by (simp add: log_sample_def)

lemma count_flush_reactive: "count_list (fst (reactive s r)) FileFlush = 0"
  by (simp add: reactive_def RefillJug_def WhiteLight_def Let_def)

subsection \<open>Start-up and the passes after it\<close>

lemma filenames_first_seven:
  "filename 0 = ''MLOG00.CSV'' \<and> filename 1 = ''MLOG01.CSV'' \<and> filename 2 = ''MLOG02.CSV''
   \<and> filename 3 = ''MLOG03.CSV'' \<and> filename 4 = ''MLOG04.CSV''
   \<and> filename 5 = ''MLOG05.CSV'' \<and> filename 6 = ''MLOG06.CSV''"
  by code_simp

lemma upt_6: "[0..<6] = [0, 1, 2, 3, 4, 5::nat]"
  by code_simp

lemma filename_shape:
  "filename k = ''MLOG'' @ [char_of (k div 10 + 48), char_of (k mod 10 + 48)] @ ''.CSV''"
  by (simp add: filename_def)

lemma createFile_from_first_unused:
  "i \<le> k \<Longrightarrow> k < 100 \<Longrightarrow> \<not> sd_exists b (filename k) \<Longrightarrow>
   (\<And>j. i \<le> j \<Longrightarrow> j < k \<Longrightarrow> sd_exists b (filename j)) \<Longrightarrow>
   createFile_from b lf i =
     (map (\<lambda>j. SdExists (filename j) True) [i..<k]
        @ [SdExists (filename k) False, SdOpen (filename k) (sd_open b (filename k))],
      if sd_open b (filename k) then Some (filename k) else None)"
proof (induction b lf i rule: createFile_from.induct)
  case (1 b lf i)
  show ?case
  proof (cases "i = k")
    case True
    with "1.prems" show ?thesis
      by (subst createFile_from.simps) simp
  next
    case False
    with "1.prems" have lt: "i < k" and ex: "sd_exists b (filename i)" and i100: "i < 100"
      by auto
    have rest: "createFile_from b lf (Suc i) =
       (map (\<lambda>j. SdExists (filename j) True) [Suc i..<k]
          @ [SdExists (filename k) False, SdOpen (filename k) (sd_open b (filename k))],
        if sd_open b (filename k) then Some (filename k) else None)"
      using "1.IH" [OF i100] ex lt "1.prems" by simp
    have upt: "[i..<k] = i # [Suc i..<k]"
      using lt by (simp add: upt_conv_Cons)
    show ?thesis
      by (subst createFile_from.simps) (simp add: i100 ex rest upt del: upt_Suc)
  qed
qed

lemma createFile_from_all_exist:
  "(\<And>j. i \<le> j \<Longrightarrow> j < 100 \<Longrightarrow> sd_exists b (filename j)) \<Longrightarrow>
   createFile_from b lf i = (map (\<lambda>j. SdExists (filename j) True) [i..<100], lf)"
proof (induction b lf i rule: createFile_from.induct)
  case (1 b lf i)
  show ?case
  proof (cases "i < 100")
    case False
    then show ?thesis
      by (subst createFile_from.simps) simp
  next
    case True
    then have ex: "sd_exists b (filename i)"
      using "1.prems" by simp
    have rest: "createFile_from b lf (Suc i) =
        (map (\<lambda>j. SdExists (filename j) True) [Suc i..<100], lf)"
      using "1.IH" [OF True] ex "1.prems" by simp
    have upt: "[i..<100] = i # [Suc i..<100]"
      using True by (simp add: upt_conv_Cons)
    show ?thesis
      by (subst createFile_from.simps) (simp add: True ex rest upt del: upt_Suc)
  qed
qed

lemma createFile_from_quiet:
  "file_items (fst (createFile_from b lf i)) = []
   \<and> serial_out (fst (createFile_from b lf i)) = []
   \<and> filter is_init (fst (createFile_from b lf i)) = []"
proof (induction b lf i rule: createFile_from.induct)
  case (1 b lf i)
  show ?case
  proof (cases "i < 100 \<and> sd_exists b (filename i)")
    case False
    then show ?thesis
      by (subst (1 2 3) createFile_from.simps) auto
  next
    case True
    then have "file_items (fst (createFile_from b lf (i + 1))) = []
        \<and> serial_out (fst (createFile_from b lf (i + 1))) = []
        \<and> filter is_init (fst (createFile_from b lf (i + 1))) = []"
      using "1.IH" by simp
    with True show ?thesis
      by (subst (1 2 3) createFile_from.simps) (simp add: split_beta)
  qed
qed

lemma createFile_quiet:
  "file_items (fst (createFile b s)) = []"
  "serial_out (fst (createFile b s)) = []"
  "filter is_init (fst (createFile b s)) = []"
  using createFile_from_quiet [of b "logfile s" 0] by (simp_all add: createFile_def split_beta)

lemma setup_trace:
  "fst (setup_sketch b s) =
     [SerialBegin 9600, DhtBegin, PinMode MOTION_PIN INPUT, PinMode TEMP_HUMID_PIN INPUT,
      StripBegin, StripSetBrightness 50, StripShow]
     @ initSDcard b @ fst (createFile b s) @ initRTC b @ [FilePrintln (PStr header)]"
  by (simp add: setup_sketch_def split_beta)

lemma setup_state: "snd (setup_sketch b s) = snd (createFile b s)"
  by (simp add: setup_sketch_def split_beta)

lemma setup_serial: "serial_out (fst (setup_sketch b s)) = serial_out (initSDcard b)"
  by (simp add: setup_trace serial_out_append createFile_quiet) (simp add: initRTC_def)

lemma setup_file_items:
  "file_items (fst (setup_sketch b s)) =
     (if \<not> rtc_begin b then [PStr ''RTC failed'', EOL] else []) @ [PStr header, EOL]"
  by (simp add: setup_trace file_items_append createFile_quiet) (simp add: initSDcard_def initRTC_def)

lemma setup_inits:
  "filter is_init (fst (setup_sketch b s)) = [SdBegin chipSelect (sd_begin b), RtcBegin (rtc_begin b)]"
  by (simp add: setup_trace createFile_quiet) (simp add: initSDcard_def initRTC_def)

lemma setup_last: "last (fst (setup_sketch b s)) = FilePrintln (PStr header)"
  by (simp add: setup_trace)

lemma loop_quiet:
  "serial_out (fst (loop s r)) = [] \<and> filter is_init (fst (loop s r)) = []"
  by (simp add: loop_def reactive_def log_sample_def RefillJug_def WhiteLight_def Let_def)

lemma loop_logfile: "logfile (snd (loop s r)) = logfile s"
  by (simp add: loop_def reactive_def Let_def)

lemma loop_ignores_handle:
  "loop (s\<lparr>logfile := h\<rparr>) r = (fst (loop s r), (snd (loop s r))\<lparr>logfile := h\<rparr>)"
  by (simp add: loop_def reactive_def Let_def)

lemma run_quiet:
  "serial_out (fst (run s rs)) = [] \<and> filter is_init (fst (run s rs)) = []"
proof (induction rs arbitrary: s)
  case Nil
  show ?case by simp
next
  case (Cons r rs)
  show ?case
    using Cons [of "snd (loop s r)"] loop_quiet [of s r]
    by (simp add: split_beta serial_out_append)
qed

lemma run_logfile: "logfile (snd (run s rs)) = logfile s"
proof (induction rs arbitrary: s)
  case Nil
  show ?case by simp
next
  case (Cons r rs)
  show ?case
    using Cons [of "snd (loop s r)"] loop_logfile [of s r]
    by (simp add: split_beta)
qed

lemma run_ignores_handle:
  "run (s\<lparr>logfile := h\<rparr>) rs = (fst (run s rs), (snd (run s rs))\<lparr>logfile := h\<rparr>)"
proof (induction rs arbitrary: s)
  case Nil
  show ?case by simp
next
  case (Cons r rs)
  show ?case
    using Cons [of "snd (loop s r)"]
    by (simp add: split_beta loop_ignores_handle)
qed

subsection \<open>Logging cadence\<close>

text \<open>
  A pass that leaves through the \<^verbatim>\<open>return\<close> of line 124 has written its record but has
  not restarted the timer; a pass that gets past line 124 restarts it at the value read in
  line 83.
\<close>

lemma tick_return_keeps_timer:
  "logging_due s r \<Longrightarrow> flush_skipped s r \<Longrightarrow> startMillis (snd (loop s r)) = startMillis s"
  by (simp add: loop_tick_return)

lemma tick_flush_restarts_timer:
  "logging_due s r \<Longrightarrow> \<not> flush_skipped s r \<Longrightarrow> startMillis (snd (loop s r)) = millis83 r"
  by (simp add: loop_tick_flush)

lemma idle_pass_keeps_timers:
  "\<not> logging_due s r \<Longrightarrow>
   startMillis (snd (loop s r)) = startMillis s \<and> syncTime (snd (loop s r)) = syncTime s"
  by (simp add: loop_no_tick)

lemma early_return_ticks_again:
  "logging_due s r \<Longrightarrow> flush_skipped s r \<Longrightarrow> ten_mins \<le> millis83 r' - startMillis s \<Longrightarrow>
   logging_due (snd (loop s r)) r'"
  by (simp add: loop_tick_return logging_due_def)

text \<open>
  C1. The claim: between the starts of two consecutive logging ticks at least the logging
  period (600000 ms) elapses. The sketch breaks it. After start-up on an empty card, the
  first tick (pass \<open>pass1\<close>) leaves the state \<open>after_pass1\<close>, with the timer restarted at
  600000 and the last flush at 600050. The tick that starts at 1200000 reaches line 124 at
  1200040, only 599990 ms after the last flush, and returns there with the timer still at
  600000; the very next pass, 41 ms later, is a logging tick again and writes a second
  record.
\<close>

theorem early_return_repeats_tick:
  "snd (loop (snd (setup_sketch fresh_card initial)) pass1) = after_pass1
   \<and> tick_starts after_pass1 [pass2, pass3] = [1200000, 1200041]
   \<and> (1200041 - 1200000 :: u32) < ten_mins
   \<and> startMillis (snd (loop after_pass1 pass2)) = 600000
   \<and> count_list (file_items (fst (run after_pass1 [pass2, pass3]))) EOL = 2"
proof -
  have a: "snd (loop (snd (setup_sketch fresh_card initial)) pass1) = after_pass1"
    unfolding setup_fresh
    by (simp add: loop_def initial_def pass1_def after_pass1_def ten_mins_def
        SYNC_INTERVAL_def reactive_def Let_def)
  have b: "tick_starts after_pass1 [pass2, pass3] = [1200000, 1200041]"
    by (simp add: loop_def logging_due_def after_pass1_def pass2_def pass3_def ten_mins_def
        SYNC_INTERVAL_def reactive_def Let_def)
  have c: "(1200041 - 1200000 :: u32) < ten_mins"
    by (simp add: ten_mins_def)
  have d: "startMillis (snd (loop after_pass1 pass2)) = 600000"
    by (simp add: loop_def after_pass1_def pass2_def ten_mins_def SYNC_INTERVAL_def Let_def)
  have e: "count_list (file_items (fst (run after_pass1 [pass2, pass3]))) EOL = 2"
    by (simp add: loop_def after_pass1_def pass2_def pass3_def ten_mins_def
        SYNC_INTERVAL_def reactive_def Let_def log_sample_def FSR_empty_bowl_def)
  from a b c d e show ?thesis by blast
qed

subsection \<open>Reactive check\<close>

text \<open>
  C2, as claimed: in a pass in which a logging tick occurred the reactive check does not
  run. It does: \<open>alert_pass\<close> is a logging pass (the first one after start-up), and after
  the flush and the delay of 2000 ms it reads the pressure (900) and blinks red.
\<close>

theorem reactive_check_in_tick_pass:
  "logging_due initial alert_pass
   \<and> fst (loop initial alert_pass) =
       Millis 600000 # log_sample alert_pass
       @ [Millis 600050, Millis 600050, FileFlush, Delay 2000, AnalogRead 900] @ RefillJug"
  by (simp add: loop_def logging_due_def initial_def alert_pass_def ten_mins_def
      SYNC_INTERVAL_def reactive_def FSR_empty_bowl_def Let_def)

text \<open>
  C2, amended. In every pass in which no logging tick occurs the reactive check runs. In
  every pass in which a logging tick occurs and gets past the test of line 124 (the flush
  is done, the timer restarted, 2000 ms waited) the reactive check runs as well, after the
  delay. In both, the pressure read by the check is what \<open>FSRValue\<close> holds afterwards.
\<close>

theorem reactive_check_runs_unless_returned:
  "(\<not> logging_due s r \<longrightarrow>
      fst (loop s r) = Millis (millis83 r) # fst (reactive s r))
   \<and> (logging_due s r \<and> \<not> flush_skipped s r \<longrightarrow>
      fst (loop s r) = Millis (millis83 r) # log_sample r
        @ [Millis (millis124 r), Millis (millis125 r), FileFlush, Delay 2000]
        @ fst (reactive s r))
   \<and> (\<not> (logging_due s r \<and> flush_skipped s r) \<longrightarrow> FSRValue (snd (loop s r)) = fsr134 r)
   \<and> hd (fst (reactive s r)) = AnalogRead (fsr134 r)"
proof -
  have a: "\<not> logging_due s r \<longrightarrow> fst (loop s r) = Millis (millis83 r) # fst (reactive s r)"
    by (simp add: loop_no_tick)
  have b: "logging_due s r \<and> \<not> flush_skipped s r \<longrightarrow>
      fst (loop s r) = Millis (millis83 r) # log_sample r
        @ [Millis (millis124 r), Millis (millis125 r), FileFlush, Delay 2000]
        @ fst (reactive s r)"
    by (simp add: loop_tick_flush)
  have c: "\<not> (logging_due s r \<and> flush_skipped s r) \<longrightarrow> FSRValue (snd (loop s r)) = fsr134 r"
    by (cases "logging_due s r") (auto simp: loop_no_tick loop_tick_flush)
  have d: "hd (fst (reactive s r)) = AnalogRead (fsr134 r)"
    by (simp add: reactive_def Let_def)
  from a b c d show ?thesis by blast
qed

theorem reactive_check_runs_unless_returned_witness:
  "\<not> logging_due initial idle_pass
   \<and> fst (loop initial idle_pass) = [Millis 1000, AnalogRead 1000, DigitalRead 5 True] @ WhiteLight
   \<and> logging_due initial alert_pass \<and> \<not> flush_skipped initial alert_pass
   \<and> fst (loop initial alert_pass) = Millis 600000 # log_sample alert_pass
        @ [Millis 600050, Millis 600050, FileFlush, Delay 2000, AnalogRead 900] @ RefillJug
   \<and> FSRValue (snd (loop initial alert_pass)) = 900"
  using reactive_check_runs_unless_returned [of initial idle_pass]
    reactive_check_runs_unless_returned [of initial alert_pass]
  by (simp add: logging_due_def flush_skipped_def initial_def idle_pass_def alert_pass_def
      ten_mins_def SYNC_INTERVAL_def reactive_def FSR_empty_bowl_def MOTION_PIN_def Let_def)

text \<open>
  C4. In a pass in which the reactive check runs (any pass but one that leaves at line
  124): a pressure reading of at most \<open>FSR_empty_bowl\<close> runs the red blink; a higher
  reading with motion runs the white light; a higher reading without motion runs no effect;
  and with a low reading and motion together only the red blink runs, the motion pin is not
  even read.
\<close>

theorem reactive_check_selects_effect:
  assumes runs: "\<not> (logging_due s r \<and> flush_skipped s r)"
  shows "(fsr134 r \<le> FSR_empty_bowl \<longrightarrow>
            strip_calls (fst (loop s r)) = [StripFill red, StripShow, StripClear, StripShow]
            \<and> (\<exists>pre. fst (loop s r) = pre @ AnalogRead (fsr134 r) # RefillJug))
       \<and> (FSR_empty_bowl < fsr134 r \<and> motion139 r \<longrightarrow>
            strip_calls (fst (loop s r)) = [StripFill white, StripShow, StripClear, StripShow]
            \<and> (\<exists>pre. fst (loop s r) =
                  pre @ AnalogRead (fsr134 r) # DigitalRead MOTION_PIN True # WhiteLight))
       \<and> (FSR_empty_bowl < fsr134 r \<and> \<not> motion139 r \<longrightarrow>
            strip_calls (fst (loop s r)) = []
            \<and> (\<exists>pre. fst (loop s r) =
                  pre @ [AnalogRead (fsr134 r), DigitalRead MOTION_PIN False]))
       \<and> (fsr134 r \<le> FSR_empty_bowl \<and> motion139 r \<longrightarrow>
            StripFill white \<notin> set (fst (loop s r))
            \<and> DigitalRead MOTION_PIN True \<notin> set (fst (loop s r)))"
proof -
  obtain pre where pre: "fst (loop s r) = pre @ fst (reactive s r)"
    using loop_ends_with_reactive [OF runs] by blast
  have calls: "strip_calls (fst (loop s r)) = strip_calls (fst (reactive s r))"
    using runs by (rule strip_calls_loop)
  have alert: "fsr134 r \<le> FSR_empty_bowl \<longrightarrow>
            strip_calls (fst (loop s r)) = [StripFill red, StripShow, StripClear, StripShow]
            \<and> (\<exists>pre. fst (loop s r) = pre @ AnalogRead (fsr134 r) # RefillJug)"
  proof (intro impI)
    assume "fsr134 r \<le> FSR_empty_bowl"
    then have "fst (reactive s r) = AnalogRead (fsr134 r) # RefillJug"
      by (simp add: reactive_def Let_def)
    then show "strip_calls (fst (loop s r)) = [StripFill red, StripShow, StripClear, StripShow]
            \<and> (\<exists>pre. fst (loop s r) = pre @ AnalogRead (fsr134 r) # RefillJug)"
      using pre calls by (simp add: strip_calls_def RefillJug_def)
  qed
  have presence: "FSR_empty_bowl < fsr134 r \<and> motion139 r \<longrightarrow>
            strip_calls (fst (loop s r)) = [StripFill white, StripShow, StripClear, StripShow]
            \<and> (\<exists>pre. fst (loop s r) =
                  pre @ AnalogRead (fsr134 r) # DigitalRead MOTION_PIN True # WhiteLight)"
  proof (intro impI)
    assume "FSR_empty_bowl < fsr134 r \<and> motion139 r"
    then have "fst (reactive s r) =
        AnalogRead (fsr134 r) # DigitalRead MOTION_PIN True # WhiteLight"
      by (simp add: reactive_def Let_def)
    then show "strip_calls (fst (loop s r)) = [StripFill white, StripShow, StripClear, StripShow]
            \<and> (\<exists>pre. fst (loop s r) =
                  pre @ AnalogRead (fsr134 r) # DigitalRead MOTION_PIN True # WhiteLight)"
      using pre calls by (simp add: strip_calls_def WhiteLight_def)
  qed
  have neither: "FSR_empty_bowl < fsr134 r \<and> \<not> motion139 r \<longrightarrow>
            strip_calls (fst (loop s r)) = []
            \<and> (\<exists>pre. fst (loop s r) =
                  pre @ [AnalogRead (fsr134 r), DigitalRead MOTION_PIN False])"
  proof (intro impI)
    assume "FSR_empty_bowl < fsr134 r \<and> \<not> motion139 r"
    then have "fst (reactive s r) = [AnalogRead (fsr134 r), DigitalRead MOTION_PIN False]"
      by (simp add: reactive_def Let_def)
    then show "strip_calls (fst (loop s r)) = []
            \<and> (\<exists>pre. fst (loop s r) =
                  pre @ [AnalogRead (fsr134 r), DigitalRead MOTION_PIN False])"
      using pre calls by (simp add: strip_calls_def)
  qed
  have only_alert: "fsr134 r \<le> FSR_empty_bowl \<and> motion139 r \<longrightarrow>
            StripFill white \<notin> set (fst (loop s r))
            \<and> DigitalRead MOTION_PIN True \<notin> set (fst (loop s r))"
  proof (intro impI)
    assume "fsr134 r \<le> FSR_empty_bowl \<and> motion139 r"
    then have react: "fst (reactive s r) = AnalogRead (fsr134 r) # RefillJug"
      by (simp add: reactive_def Let_def)
    show "StripFill white \<notin> set (fst (loop s r))
            \<and> DigitalRead MOTION_PIN True \<notin> set (fst (loop s r))"
    proof (cases "logging_due s r")
      case False
      then show ?thesis
        by (simp add: loop_no_tick react RefillJug_def red_def white_def)
    next
      case True
      with runs show ?thesis
        by (simp add: loop_tick_flush react RefillJug_def red_def white_def log_sample_def)
    qed
  qed
  show ?thesis
    by (rule conjI [OF alert conjI [OF presence conjI [OF neither only_alert] ] ])
qed

theorem reactive_check_selects_effect_witness:
  "\<not> (logging_due initial alert_pass \<and> flush_skipped initial alert_pass)
   \<and> fsr134 alert_pass \<le> FSR_empty_bowl \<and> motion139 alert_pass
   \<and> strip_calls (fst (loop initial alert_pass)) = [StripFill red, StripShow, StripClear, StripShow]
   \<and> StripFill white \<notin> set (fst (loop initial alert_pass))
   \<and> \<not> (logging_due initial idle_pass \<and> flush_skipped initial idle_pass)
   \<and> FSR_empty_bowl < fsr134 idle_pass \<and> motion139 idle_pass
   \<and> strip_calls (fst (loop initial idle_pass)) = [StripFill white, StripShow, StripClear, StripShow]
   \<and> \<not> (logging_due initial still_pass \<and> flush_skipped initial still_pass)
   \<and> FSR_empty_bowl < fsr134 still_pass \<and> \<not> motion139 still_pass
   \<and> strip_calls (fst (loop initial still_pass)) = []
   \<and> \<not> (logging_due initial empty_pass \<and> flush_skipped initial empty_pass)
   \<and> fsr134 empty_pass \<le> FSR_empty_bowl
   \<and> strip_calls (fst (loop initial empty_pass)) = [StripFill red, StripShow, StripClear, StripShow]"
proof -
  have a: "\<not> (logging_due initial alert_pass \<and> flush_skipped initial alert_pass)"
    by (simp add: flush_skipped_def initial_def alert_pass_def SYNC_INTERVAL_def)
  have b: "\<not> (logging_due initial idle_pass \<and> flush_skipped initial idle_pass)"
    by (simp add: logging_due_def initial_def idle_pass_def ten_mins_def)
  have c: "\<not> (logging_due initial still_pass \<and> flush_skipped initial still_pass)"
    by (simp add: logging_due_def initial_def still_pass_def ten_mins_def)
  have d: "\<not> (logging_due initial empty_pass \<and> flush_skipped initial empty_pass)"
    by (simp add: logging_due_def initial_def empty_pass_def ten_mins_def)
  have vals: "fsr134 alert_pass \<le> FSR_empty_bowl" "motion139 alert_pass"
    "FSR_empty_bowl < fsr134 idle_pass" "motion139 idle_pass"
    "FSR_empty_bowl < fsr134 still_pass" "\<not> motion139 still_pass"
    "fsr134 empty_pass \<le> FSR_empty_bowl"
    by (simp_all add: alert_pass_def idle_pass_def still_pass_def empty_pass_def
        FSR_empty_bowl_def)
  show ?thesis
    using reactive_check_selects_effect [OF a] reactive_check_selects_effect [OF b]
      reactive_check_selects_effect [OF c] reactive_check_selects_effect [OF d] a b c d vals
    by blast
qed

subsection \<open>Flushing\<close>

text \<open>
  The sketch measures elapsed time by 32-bit subtraction. As long as less than \<open>2 ^ 32\<close> ms
  (about 49.7 days) lie between two readings of the clock, that difference is the time that
  has really passed, also across the wrap-around of \<^verbatim>\<open>millis\<close>.
\<close>

lemma elapsed_word:
  "a \<le> b \<Longrightarrow> b - a < 2 ^ 32 \<Longrightarrow> unat ((of_nat b :: u32) - of_nat a) = b - a"
proof -
  assume le: "a \<le> b" and small: "b - a < 2 ^ 32"
  have "(of_nat b :: u32) - of_nat a = of_nat (b - a)"
    using le by simp
  then show ?thesis
    using small by (simp add: unat_of_nat)
qed

text \<open>
  C3. A pass flushes if and only if it is a logging tick and, at line 124, the time elapsed
  since the last flush (\<open>millis124 r - syncTime s\<close>) is at least \<open>SYNC_INTERVAL\<close>. When it
  flushes, \<open>syncTime\<close> becomes the clock value read in line 125; when it does not,
  \<open>syncTime\<close> is unchanged. A tick whose interval has not elapsed writes its record and does
  not flush, and no pass flushes twice.
\<close>

theorem flush_iff_interval_elapsed:
  "(FileFlush \<in> set (fst (loop s r)) \<longleftrightarrow>
      logging_due s r \<and> SYNC_INTERVAL \<le> millis124 r - syncTime s)
   \<and> (FileFlush \<in> set (fst (loop s r)) \<longrightarrow> syncTime (snd (loop s r)) = millis125 r)
   \<and> (FileFlush \<notin> set (fst (loop s r)) \<longrightarrow> syncTime (snd (loop s r)) = syncTime s)
   \<and> (logging_due s r \<and> millis124 r - syncTime s < SYNC_INTERVAL \<longrightarrow>
        file_items (fst (loop s r)) = file_items (log_sample r)
        \<and> FileFlush \<notin> set (fst (loop s r)))
   \<and> count_list (fst (loop s r)) FileFlush \<le> 1"
proof (cases "logging_due s r")
  case False
  then show ?thesis
    by (simp add: loop_no_tick flush_not_in_reactive count_flush_reactive)
next
  case due: True
  show ?thesis
  proof (cases "flush_skipped s r")
    case True
    with due show ?thesis
      by (simp add: loop_tick_return flush_not_in_log_sample count_flush_log_sample
          file_items_append) (simp add: flush_skipped_def not_le)
  next
    case False
    with due show ?thesis
      by (simp add: loop_tick_flush count_flush_log_sample count_flush_reactive)
        (simp add: flush_skipped_def not_less)
  qed
qed

theorem flush_iff_interval_elapsed_witness:
  "logging_due after_pass1 pass2 \<and> millis124 pass2 - syncTime after_pass1 < SYNC_INTERVAL
   \<and> FileFlush \<notin> set (fst (loop after_pass1 pass2))
   \<and> syncTime (snd (loop after_pass1 pass2)) = 600050
   \<and> file_items (fst (loop after_pass1 pass2)) = file_items (log_sample pass2)
   \<and> logging_due initial pass1 \<and> SYNC_INTERVAL \<le> millis124 pass1 - syncTime initial
   \<and> FileFlush \<in> set (fst (loop initial pass1))
   \<and> syncTime (snd (loop initial pass1)) = 600050"
  using flush_iff_interval_elapsed [of after_pass1 pass2]
    flush_iff_interval_elapsed [of initial pass1]
  by (simp add: logging_due_def initial_def after_pass1_def pass1_def pass2_def
      ten_mins_def SYNC_INTERVAL_def)

subsection \<open>Choosing the log file\<close>

text \<open>
  C5. \<^verbatim>\<open>createFile\<close> probes \<open>filename 0\<close>, \<open>filename 1\<close>, ... in ascending order, stops at
  the first name \<open>filename k\<close> (\<open>k < 100\<close>) that does not exist and opens that one. If
  exactly the names 00 to 05 exist, the name opened is \<^verbatim>\<open>MLOG06.CSV\<close>.
\<close>

theorem createFile_opens_first_unused:
  "(k < 100 \<and> \<not> sd_exists b (filename k) \<and> (\<forall>j<k. sd_exists b (filename j)) \<longrightarrow>
      fst (createFile b s) =
        map (\<lambda>j. SdExists (filename j) True) [0..<k]
        @ [SdExists (filename k) False, SdOpen (filename k) (sd_open b (filename k))]
      \<and> logfile (snd (createFile b s)) =
          (if sd_open b (filename k) then Some (filename k) else None))
   \<and> ((\<forall>f. sd_exists b f \<longleftrightarrow> f \<in> set (map filename [0..<6])) \<longrightarrow>
        last (fst (createFile b s)) = SdOpen ''MLOG06.CSV'' (sd_open b ''MLOG06.CSV'')
        \<and> length (fst (createFile b s)) = 8)"
proof -
  have first: "fst (createFile b s) =
        map (\<lambda>j. SdExists (filename j) True) [0..<k]
        @ [SdExists (filename k) False, SdOpen (filename k) (sd_open b (filename k))]
      \<and> logfile (snd (createFile b s)) =
          (if sd_open b (filename k) then Some (filename k) else None)"
    if "k < 100" "\<not> sd_exists b (filename k)" "\<forall>j<k. sd_exists b (filename j)" for k
    using that createFile_from_first_unused [of 0 k b "logfile s"]
    by (simp add: createFile_def)
  have six: "last (fst (createFile b s)) = SdOpen ''MLOG06.CSV'' (sd_open b ''MLOG06.CSV'')
        \<and> length (fst (createFile b s)) = 8"
    if h: "\<forall>f. sd_exists b f \<longleftrightarrow> f \<in> set (map filename [0..<6])"
  proof -
    have names: "filename 6 = ''MLOG06.CSV''" "filename 6 \<notin> set (map filename [0..<6])"
      using filenames_first_seven by (simp_all add: upt_6)
    have "\<not> sd_exists b (filename 6)"
      using h names(2) by blast
    moreover have "\<forall>j<6. sd_exists b (filename j)"
      using h by simp
    ultimately show ?thesis
      using first [of 6] names(1) by simp
  qed
  from first six show ?thesis by blast
qed

theorem createFile_opens_first_unused_witness:
  "sd_exists six_files_card (filename 0) \<and> sd_exists six_files_card (filename 5)
   \<and> \<not> sd_exists six_files_card (filename 6)
   \<and> fst (createFile six_files_card initial) =
       [SdExists ''MLOG00.CSV'' True, SdExists ''MLOG01.CSV'' True, SdExists ''MLOG02.CSV'' True,
        SdExists ''MLOG03.CSV'' True, SdExists ''MLOG04.CSV'' True, SdExists ''MLOG05.CSV'' True,
        SdExists ''MLOG06.CSV'' False, SdOpen ''MLOG06.CSV'' True]
   \<and> logfile (snd (createFile six_files_card initial)) = Some ''MLOG06.CSV''
   \<and> last (fst (createFile six_files_card initial)) = SdOpen ''MLOG06.CSV'' True"
proof -
  have names: "filename 0 = ''MLOG00.CSV''" "filename 1 = ''MLOG01.CSV''"
    "filename 2 = ''MLOG02.CSV''" "filename 3 = ''MLOG03.CSV''" "filename 4 = ''MLOG04.CSV''"
    "filename 5 = ''MLOG05.CSV''" "filename 6 = ''MLOG06.CSV''"
    using filenames_first_seven by blast+
  have there: "sd_exists six_files_card (filename 0)" "sd_exists six_files_card (filename 1)"
    "sd_exists six_files_card (filename 2)" "sd_exists six_files_card (filename 3)"
    "sd_exists six_files_card (filename 4)" "sd_exists six_files_card (filename 5)"
    unfolding names by (simp_all add: six_files_card_def)
  have absent: "\<not> sd_exists six_files_card (filename 6)"
    unfolding names by (simp add: six_files_card_def)
  have opens: "sd_open six_files_card (filename 6)"
    by (simp add: six_files_card_def)
  have all: "\<forall>j<6. sd_exists six_files_card (filename j)"
  proof (intro allI impI)
    fix j :: nat assume "j < 6"
    then have "j = 0 \<or> j = 1 \<or> j = 2 \<or> j = 3 \<or> j = 4 \<or> j = 5"
      by arith
    then show "sd_exists six_files_card (filename j)"
      using there by blast
  qed
  have hyp: "\<forall>f. sd_exists six_files_card f \<longleftrightarrow> f \<in> set (map filename [0..<6])"
    unfolding upt_6 list.map names by (simp add: six_files_card_def)
  have pre: "6 < (100::nat) \<and> \<not> sd_exists six_files_card (filename 6)
      \<and> (\<forall>j<6. sd_exists six_files_card (filename j))"
    using absent all by simp
  have a: "fst (createFile six_files_card initial) =
        map (\<lambda>j. SdExists (filename j) True) [0..<6]
        @ [SdExists (filename 6) False, SdOpen (filename 6) (sd_open six_files_card (filename 6))]
      \<and> logfile (snd (createFile six_files_card initial)) =
          (if sd_open six_files_card (filename 6) then Some (filename 6) else None)"
    using createFile_opens_first_unused [of 6 six_files_card initial] pre by blast
  have b: "last (fst (createFile six_files_card initial)) =
       SdOpen ''MLOG06.CSV'' (sd_open six_files_card ''MLOG06.CSV'')"
    using createFile_opens_first_unused [of 6 six_files_card initial] hyp by blast
  have c: "sd_open six_files_card ''MLOG06.CSV''"
    by (simp add: six_files_card_def)
  have trace: "fst (createFile six_files_card initial) =
       [SdExists ''MLOG00.CSV'' True, SdExists ''MLOG01.CSV'' True, SdExists ''MLOG02.CSV'' True,
        SdExists ''MLOG03.CSV'' True, SdExists ''MLOG04.CSV'' True, SdExists ''MLOG05.CSV'' True,
        SdExists ''MLOG06.CSV'' False, SdOpen ''MLOG06.CSV'' True]"
    using a opens unfolding upt_6 list.map names by simp
  have handle: "logfile (snd (createFile six_files_card initial)) = Some ''MLOG06.CSV''"
    using a opens unfolding names by simp
  from there(1) there(6) absent trace handle b c show ?thesis
    by simp
qed

text \<open>
  C9, as claimed: when all 100 names exist, the condition is reported. It is not:
  \<^verbatim>\<open>createFile\<close> prints nothing, and the serial output of a start-up on a full card is
  the serial output of a start-up on an empty card.
\<close>

theorem full_card_not_reported:
  "list_all (sd_exists full_card) (map filename [0..<100])
   \<and> serial_out (fst (createFile full_card initial)) = []
   \<and> serial_out (fst (setup_sketch full_card initial)) =
       [''Initializing SD card...'', ''card initialized.'']
   \<and> serial_out (fst (setup_sketch fresh_card initial)) =
       [''Initializing SD card...'', ''card initialized.'']
   \<and> file_items (fst (createFile full_card initial)) = []"
  by (simp add: createFile_quiet setup_serial initSDcard_def full_card_def fresh_card_def
      list_all_iff)

text \<open>
  C9, amended. If all 100 candidate names exist, \<^verbatim>\<open>createFile\<close> probes them all, opens
  nothing and leaves \<open>logfile\<close> as it was, closed after a start from \<open>initial\<close>; nothing is
  printed about it; start-up goes on to the header line and the loop runs; and nothing
  reaches the card, neither from start-up nor from any run of the loop.
\<close>

theorem full_card_leaves_handle_unready:
  "(\<forall>j<100. sd_exists b (filename j)) \<longrightarrow>
     fst (createFile b s) = map (\<lambda>j. SdExists (filename j) True) [0..<100]
     \<and> logfile (snd (createFile b s)) = logfile s
     \<and> logfile (snd (setup_sketch b initial)) = None
     \<and> serial_out (fst (createFile b s)) = []
     \<and> serial_out (fst (setup_sketch b initial)) = serial_out (initSDcard b)
     \<and> last (fst (setup_sketch b initial)) = FilePrintln (PStr header)
     \<and> written (logfile (snd (setup_sketch b initial))) (fst (setup_sketch b initial)) = []
     \<and> written (logfile (snd (run (snd (setup_sketch b initial)) rs)))
          (fst (run (snd (setup_sketch b initial)) rs)) = []"
proof (intro impI)
  assume full: "\<forall>j<100. sd_exists b (filename j)"
  have from0: "createFile_from b lf 0 = (map (\<lambda>j. SdExists (filename j) True) [0..<100], lf)"
    for lf
    using full by (intro createFile_from_all_exist) simp
  have trace: "fst (createFile b s) = map (\<lambda>j. SdExists (filename j) True) [0..<100]"
    by (simp add: createFile_def from0)
  have keep: "logfile (snd (createFile b s)) = logfile s"
    by (simp add: createFile_def from0)
  have closed: "logfile (snd (setup_sketch b initial)) = None"
    by (simp add: setup_state createFile_def from0 initial_def)
  have none: "written (logfile (snd (setup_sketch b initial))) es = []" for es
    by (simp add: closed written_def)
  have none_run: "written (logfile (snd (run (snd (setup_sketch b initial)) rs))) es = []" for es
    by (simp add: run_logfile closed written_def)
  show "fst (createFile b s) = map (\<lambda>j. SdExists (filename j) True) [0..<100]
     \<and> logfile (snd (createFile b s)) = logfile s
     \<and> logfile (snd (setup_sketch b initial)) = None
     \<and> serial_out (fst (createFile b s)) = []
     \<and> serial_out (fst (setup_sketch b initial)) = serial_out (initSDcard b)
     \<and> last (fst (setup_sketch b initial)) = FilePrintln (PStr header)
     \<and> written (logfile (snd (setup_sketch b initial))) (fst (setup_sketch b initial)) = []
     \<and> written (logfile (snd (run (snd (setup_sketch b initial)) rs)))
          (fst (run (snd (setup_sketch b initial)) rs)) = []"
    using trace keep closed none none_run createFile_quiet(2) [of b s]
      setup_serial [of b initial] setup_last [of b initial]
    by blast
qed

theorem full_card_leaves_handle_unready_witness:
  "list_all (sd_exists full_card) (map filename [0..<100])
   \<and> logfile (snd (setup_sketch full_card initial)) = None
   \<and> length (fst (createFile full_card initial)) = 100
   \<and> written (logfile (snd (setup_sketch full_card initial)))
        (fst (setup_sketch full_card initial)) = []
   \<and> written (logfile (snd (run (snd (setup_sketch full_card initial)) [pass1])))
        (fst (run (snd (setup_sketch full_card initial)) [pass1])) = []"
proof -
  have full: "\<forall>j<100. sd_exists full_card (filename j)"
    by (simp add: full_card_def)
  have all: "list_all (sd_exists full_card) (map filename [0..<100])"
    by (simp add: full_card_def list_all_iff)
  have concl: "fst (createFile full_card initial) =
       map (\<lambda>j. SdExists (filename j) True) [0..<100]
     \<and> logfile (snd (setup_sketch full_card initial)) = None
     \<and> written (logfile (snd (setup_sketch full_card initial)))
         (fst (setup_sketch full_card initial)) = []
     \<and> written (logfile (snd (run (snd (setup_sketch full_card initial)) [pass1])))
         (fst (run (snd (setup_sketch full_card initial)) [pass1])) = []"
    using full_card_leaves_handle_unready [of full_card initial "[pass1]"] full
    by blast
  then have len: "length (fst (createFile full_card initial)) = 100"
    by simp
  from concl all len show ?thesis
    by blast
qed

subsection \<open>Failing initialisation\<close>

text \<open>
  C8, as claimed: a clock that fails to initialise is reported to the diagnostic sink and
  not into the data log. The sketch does the opposite: with a working card and a dead
  clock, start-up prints \<^verbatim>\<open>RTC failed\<close> to the log file, ahead of the header, and the
  serial port sees only the two lines about the card.
\<close>

theorem rtc_failure_written_to_log:
  "\<not> rtc_begin dead_clock
   \<and> file_items (fst (setup_sketch dead_clock initial)) =
       [PStr ''RTC failed'', EOL, PStr header, EOL]
   \<and> serial_out (fst (setup_sketch dead_clock initial)) =
       [''Initializing SD card...'', ''card initialized.'']
   \<and> written (logfile (snd (setup_sketch dead_clock initial)))
        (fst (setup_sketch dead_clock initial)) = [PStr ''RTC failed'', EOL, PStr header, EOL]"
proof -
  have a: "\<not> rtc_begin dead_clock" "sd_begin dead_clock"
    by (simp_all add: dead_clock_def)
  have b: "logfile (snd (setup_sketch dead_clock initial)) = Some ''MLOG00.CSV''"
    by (simp add: setup_state createFile_def createFile_from.simps dead_clock_def filename_0)
  show ?thesis
    using a by (simp add: setup_file_items setup_serial b written_def initSDcard_def)
qed

text \<open>
  C8, amended. If the card fails to initialise, start-up prints
  \<^verbatim>\<open>Card failed, or not present\<close> to the serial port and not to the log file. If the
  clock fails to initialise, start-up prints the line \<^verbatim>\<open>RTC failed\<close> to the log file,
  ahead of the header, and nothing about it to the serial port. In either case start-up
  runs to its last statement, the header line; card and clock are initialised once each
  during start-up and never in the loop; the loop prints nothing to the serial port; and
  the loop makes the same calls whether or not the log file is open.
\<close>

theorem init_failure_reporting:
  "(\<not> sd_begin b \<longrightarrow>
      serial_out (fst (setup_sketch b s)) =
        [''Initializing SD card...'', ''Card failed, or not present'']
      \<and> PStr ''Card failed, or not present'' \<notin> set (file_items (fst (setup_sketch b s))))
   \<and> (\<not> rtc_begin b \<longrightarrow>
      file_items (fst (setup_sketch b s)) = [PStr ''RTC failed'', EOL, PStr header, EOL]
      \<and> serial_out (fst (setup_sketch b s)) = serial_out (initSDcard b)
      \<and> ''RTC failed'' \<notin> set (serial_out (fst (setup_sketch b s))))
   \<and> last (fst (setup_sketch b s)) = FilePrintln (PStr header)
   \<and> filter is_init (fst (setup_sketch b s)) =
       [SdBegin chipSelect (sd_begin b), RtcBegin (rtc_begin b)]
   \<and> filter is_init (fst (run (snd (setup_sketch b s)) rs)) = []
   \<and> serial_out (fst (run (snd (setup_sketch b s)) rs)) = []
   \<and> fst (run (s'\<lparr>logfile := h\<rparr>) rs) = fst (run s' rs)"
proof -
  have sd: "\<not> sd_begin b \<longrightarrow>
      serial_out (fst (setup_sketch b s)) =
        [''Initializing SD card...'', ''Card failed, or not present'']
      \<and> PStr ''Card failed, or not present'' \<notin> set (file_items (fst (setup_sketch b s)))"
    by (simp add: setup_serial setup_file_items initSDcard_def header_def)
  have rtc: "\<not> rtc_begin b \<longrightarrow>
      file_items (fst (setup_sketch b s)) = [PStr ''RTC failed'', EOL, PStr header, EOL]
      \<and> serial_out (fst (setup_sketch b s)) = serial_out (initSDcard b)
      \<and> ''RTC failed'' \<notin> set (serial_out (fst (setup_sketch b s)))"
    by (simp add: setup_serial setup_file_items initSDcard_def)
  have same: "fst (run (s'\<lparr>logfile := h\<rparr>) rs) = fst (run s' rs)"
    by (simp add: run_ignores_handle)
  show ?thesis
    using sd rtc same setup_last [of b s] setup_inits [of b s]
      run_quiet [of "snd (setup_sketch b s)" rs]
    by blast
qed

theorem init_failure_reporting_witness:
  "\<not> sd_begin dead_board \<and> \<not> rtc_begin dead_board
   \<and> serial_out (fst (setup_sketch dead_board initial)) =
        [''Initializing SD card...'', ''Card failed, or not present'']
   \<and> file_items (fst (setup_sketch dead_board initial)) =
        [PStr ''RTC failed'', EOL, PStr header, EOL]
   \<and> filter is_init (fst (setup_sketch dead_board initial)) = [SdBegin 10 False, RtcBegin False]
   \<and> filter is_init (fst (run (snd (setup_sketch dead_board initial)) [pass1])) = []"
proof -
  have a: "\<not> sd_begin dead_board" "\<not> rtc_begin dead_board"
    by (simp_all add: dead_board_def)
  show ?thesis
    using init_failure_reporting [of dead_board initial "[pass1]"] a
    by (simp add: chipSelect_def)
qed

subsection \<open>The record\<close>

text \<open>
  C6. A logging tick in which the temperature read or the humidity read returns
  \<open>NaN\<close> still writes exactly one line; cut at the separators, its fourth and fifth fields
  are what the reads returned (so \<open>NaN\<close> where a read failed) and its last field is the
  pressure; every call of lines 89 to 121 is made; and the timers come out as they would
  with any other pair of readings \<open>t\<close>, \<open>h\<close>.
\<close>

theorem failed_dht_read_still_logged:
  "logging_due s r \<and> (temp113 r = NaN \<or> hum112 r = NaN) \<longrightarrow>
     count_list (file_items (fst (loop s r))) EOL = 1
     \<and> split_on (PStr '', '') (file_items (fst (loop s r))) =
         [ [PU32 (millis89 r)],
          [PU32 (unixtime (rtc_now r))],
          [PDec (year (rtc_now r)), PStr ''/'', PDec (month (rtc_now r)), PStr ''/'',
           PDec (day (rtc_now r)), PStr '' '', PDec (hour (rtc_now r)), PStr '':'',
           PDec (minute (rtc_now r)), PStr '':'', PDec (second (rtc_now r))],
          [PFloat (temp113 r)],
          [PFloat (hum112 r)],
          [PInt (fsr111 r), EOL] ]
     \<and> (temp113 r = NaN \<longrightarrow>
          split_on (PStr '', '') (file_items (fst (loop s r))) ! 3 = [PFloat NaN])
     \<and> (hum112 r = NaN \<longrightarrow>
          split_on (PStr '', '') (file_items (fst (loop s r))) ! 4 = [PFloat NaN])
     \<and> (\<exists>rest. fst (loop s r) = Millis (millis83 r) # log_sample r @ rest)
     \<and> startMillis (snd (loop s r)) = startMillis (snd (loop s (r\<lparr>temp113 := t, hum112 := h\<rparr>)))
     \<and> syncTime (snd (loop s r)) = syncTime (snd (loop s (r\<lparr>temp113 := t, hum112 := h\<rparr>)))"
proof (intro impI)
  assume h: "logging_due s r \<and> (temp113 r = NaN \<or> hum112 r = NaN)"
  then have due: "logging_due s r" by simp
  let ?r' = "r\<lparr>temp113 := t, hum112 := h\<rparr>"
  have due': "logging_due s ?r'"
    using due by (simp add: logging_due_def)
  have skip': "flush_skipped s ?r' = flush_skipped s r"
    by (simp add: flush_skipped_def)
  have items: "file_items (fst (loop s r)) = file_items (log_sample r)"
    using due by (rule file_items_tick)
  have one: "count_list (file_items (fst (loop s r))) EOL = 1"
    unfolding items by (simp add: file_items_log_sample)
  have fields: "split_on (PStr '', '') (file_items (fst (loop s r))) =
         [ [PU32 (millis89 r)],
          [PU32 (unixtime (rtc_now r))],
          [PDec (year (rtc_now r)), PStr ''/'', PDec (month (rtc_now r)), PStr ''/'',
           PDec (day (rtc_now r)), PStr '' '', PDec (hour (rtc_now r)), PStr '':'',
           PDec (minute (rtc_now r)), PStr '':'', PDec (second (rtc_now r))],
          [PFloat (temp113 r)],
          [PFloat (hum112 r)],
          [PInt (fsr111 r), EOL] ]"
    unfolding items by (rule fields_log_sample)
  have t3: "temp113 r = NaN \<longrightarrow>
          split_on (PStr '', '') (file_items (fst (loop s r))) ! 3 = [PFloat NaN]"
    unfolding fields by simp
  have h4: "hum112 r = NaN \<longrightarrow>
          split_on (PStr '', '') (file_items (fst (loop s r))) ! 4 = [PFloat NaN]"
    unfolding fields by simp
  have whole: "\<exists>rest. fst (loop s r) = Millis (millis83 r) # log_sample r @ rest"
    using due by (cases "flush_skipped s r") (simp_all add: loop_tick_return loop_tick_flush)
  have timers: "startMillis (snd (loop s r)) = startMillis (snd (loop s ?r'))
      \<and> syncTime (snd (loop s r)) = syncTime (snd (loop s ?r'))"
  proof (cases "flush_skipped s r")
    case True
    then show ?thesis
      using due due' skip' by (simp add: loop_tick_return)
  next
    case False
    then show ?thesis
      using due due' skip' by (simp add: loop_tick_flush)
  qed
  from one fields t3 h4 whole timers
  show "count_list (file_items (fst (loop s r))) EOL = 1
     \<and> split_on (PStr '', '') (file_items (fst (loop s r))) =
         [ [PU32 (millis89 r)],
          [PU32 (unixtime (rtc_now r))],
          [PDec (year (rtc_now r)), PStr ''/'', PDec (month (rtc_now r)), PStr ''/'',
           PDec (day (rtc_now r)), PStr '' '', PDec (hour (rtc_now r)), PStr '':'',
           PDec (minute (rtc_now r)), PStr '':'', PDec (second (rtc_now r))],
          [PFloat (temp113 r)],
          [PFloat (hum112 r)],
          [PInt (fsr111 r), EOL] ]
     \<and> (temp113 r = NaN \<longrightarrow>
          split_on (PStr '', '') (file_items (fst (loop s r))) ! 3 = [PFloat NaN])
     \<and> (hum112 r = NaN \<longrightarrow>
          split_on (PStr '', '') (file_items (fst (loop s r))) ! 4 = [PFloat NaN])
     \<and> (\<exists>rest. fst (loop s r) = Millis (millis83 r) # log_sample r @ rest)
     \<and> startMillis (snd (loop s r)) = startMillis (snd (loop s ?r'))
     \<and> syncTime (snd (loop s r)) = syncTime (snd (loop s ?r'))"
    by blast
qed

theorem failed_dht_read_still_logged_witness:
  "logging_due initial nan_pass \<and> temp113 nan_pass = NaN \<and> hum112 nan_pass = NaN
   \<and> count_list (file_items (fst (loop initial nan_pass))) EOL = 1
   \<and> split_on (PStr '', '') (file_items (fst (loop initial nan_pass))) =
       [ [PU32 600001], [PU32 1700000000],
        [PDec 2023, PStr ''/'', PDec 11, PStr ''/'', PDec 14, PStr '' '',
         PDec 22, PStr '':'', PDec 13, PStr '':'', PDec 20],
        [PFloat NaN], [PFloat NaN], [PInt 987, EOL] ]
   \<and> startMillis (snd (loop initial nan_pass)) = 600000"
proof -
  have due: "logging_due initial nan_pass"
    by (simp add: logging_due_def initial_def nan_pass_def ten_mins_def)
  have nan: "temp113 nan_pass = NaN" "hum112 nan_pass = NaN"
    by (simp_all add: nan_pass_def)
  have good: "startMillis (snd (loop initial (nan_pass\<lparr>temp113 := Tenths 234, hum112 := Tenths 451\<rparr>)))
      = 600000"
    by (simp add: loop_def initial_def nan_pass_def ten_mins_def SYNC_INTERVAL_def
        reactive_def Let_def)
  have vals: "millis89 nan_pass = 600001" "fsr111 nan_pass = 987"
    "rtc_now nan_pass = sample_time"
    by (simp_all add: nan_pass_def)
  show ?thesis
    using failed_dht_read_still_logged
        [where s = initial and r = nan_pass and t = "Tenths 234" and h = "Tenths 451"]
      due nan good
    by (simp add: vals sample_time_def)
qed

text \<open>
  C7. A pass that is a logging tick prints to the log file exactly one line: milliseconds
  since start, unix seconds, year/month/day hour:minute:second, temperature, humidity,
  pressure, in this order; a pass that is not a logging tick prints nothing to it. With the
  file open, that line is what reaches the card.
\<close>

theorem tick_appends_one_record:
  "(logging_due s r \<longrightarrow>
      file_items (fst (loop s r)) =
        [PU32 (millis89 r), PStr '', '',
         PU32 (unixtime (rtc_now r)), PStr '', '',
         PDec (year (rtc_now r)), PStr ''/'', PDec (month (rtc_now r)), PStr ''/'',
         PDec (day (rtc_now r)), PStr '' '', PDec (hour (rtc_now r)), PStr '':'',
         PDec (minute (rtc_now r)), PStr '':'', PDec (second (rtc_now r)), PStr '', '',
         PFloat (temp113 r), PStr '', '',
         PFloat (hum112 r), PStr '', '',
         PInt (fsr111 r), EOL])
   \<and> (\<not> logging_due s r \<longrightarrow> file_items (fst (loop s r)) = [])
   \<and> (logging_due s r \<and> logfile s = Some f \<longrightarrow>
        written (logfile s) (fst (loop s r)) = file_items (log_sample r))"
  by (simp add: file_items_tick file_items_idle file_items_log_sample written_def)

theorem tick_appends_one_record_witness:
  "logging_due after_pass1 pass2 \<and> logfile after_pass1 = Some ''MLOG00.CSV''
   \<and> file_items (fst (loop after_pass1 pass2)) =
        [PU32 1200000, PStr '', '', PU32 1700000000, PStr '', '',
         PDec 2023, PStr ''/'', PDec 11, PStr ''/'', PDec 14, PStr '' '',
         PDec 22, PStr '':'', PDec 13, PStr '':'', PDec 20, PStr '', '',
         PFloat (Tenths 234), PStr '', '', PFloat (Tenths 451), PStr '', '',
         PInt 1000, EOL]
   \<and> \<not> logging_due initial idle_pass
   \<and> file_items (fst (loop initial idle_pass)) = []"
proof -
  have a: "logging_due after_pass1 pass2" "logfile after_pass1 = Some ''MLOG00.CSV''"
    "\<not> logging_due initial idle_pass"
    by (simp_all add: logging_due_def after_pass1_def pass2_def initial_def idle_pass_def
        ten_mins_def)
  have vals: "millis89 pass2 = 1200000" "rtc_now pass2 = sample_time" "temp113 pass2 = Tenths 234"
    "hum112 pass2 = Tenths 451" "fsr111 pass2 = 1000"
    by (simp_all add: pass2_def)
  show ?thesis
    using tick_appends_one_record [of after_pass1 pass2 "''MLOG00.CSV''"]
      tick_appends_one_record [of initial idle_pass "''MLOG00.CSV''"] a
    by (simp add: vals sample_time_def)
qed

text \<open>
  C10. Cut at the two-character string \<^verbatim>\<open>", "\<close>, the line of a logging tick falls into
  its six fields, and a bare comma is never printed in it. Cut at \<^verbatim>\<open>","\<close>, the header
  (the last thing start-up prints) falls into its six column names, and it contains no
  space. The line of a logging pass is the one written by lines 89 to 121.
\<close>

theorem record_and_header_delimiters:
  "split_on (PStr '', '') (file_items (log_sample r)) =
     [ [PU32 (millis89 r)],
      [PU32 (unixtime (rtc_now r))],
      [PDec (year (rtc_now r)), PStr ''/'', PDec (month (rtc_now r)), PStr ''/'',
       PDec (day (rtc_now r)), PStr '' '', PDec (hour (rtc_now r)), PStr '':'',
       PDec (minute (rtc_now r)), PStr '':'', PDec (second (rtc_now r))],
      [PFloat (temp113 r)],
      [PFloat (hum112 r)],
      [PInt (fsr111 r), EOL] ]
   \<and> PStr '','' \<notin> set (file_items (log_sample r))
   \<and> split_on (CHR '','') header =
       [''millis'', ''stamp'', ''datetime'', ''temp_(C)'', ''humidity%'', ''fsr_reading'']
   \<and> CHR '' '' \<notin> set header
   \<and> last (fst (setup_sketch b s)) = FilePrintln (PStr header)
   \<and> (logging_due s' r \<longrightarrow> file_items (fst (loop s' r)) = file_items (log_sample r))"
proof -
  have a: "PStr '','' \<notin> set (file_items (log_sample r))"
    by (simp add: file_items_log_sample)
  have b: "split_on (CHR '','') header =
       [''millis'', ''stamp'', ''datetime'', ''temp_(C)'', ''humidity%'', ''fsr_reading'']"
    by (simp add: header_def)
  have c: "CHR '' '' \<notin> set header"
    by (simp add: header_def)
  show ?thesis
    using a b c fields_log_sample [of r] setup_last [of b s] file_items_tick [of s' r]
    by blast
qed

theorem record_and_header_delimiters_witness:
  "logging_due after_pass1 pass2
   \<and> split_on (PStr '', '') (file_items (fst (loop after_pass1 pass2))) =
       [ [PU32 1200000], [PU32 1700000000],
        [PDec 2023, PStr ''/'', PDec 11, PStr ''/'', PDec 14, PStr '' '',
         PDec 22, PStr '':'', PDec 13, PStr '':'', PDec 20],
        [PFloat (Tenths 234)], [PFloat (Tenths 451)], [PInt 1000, EOL] ]
   \<and> split_on (CHR '','') header =
       [''millis'', ''stamp'', ''datetime'', ''temp_(C)'', ''humidity%'', ''fsr_reading'']"
proof -
  have a: "logging_due after_pass1 pass2"
    by (simp add: logging_due_def after_pass1_def pass2_def ten_mins_def)
  have vals: "millis89 pass2 = 1200000" "rtc_now pass2 = sample_time" "temp113 pass2 = Tenths 234"
    "hum112 pass2 = Tenths 451" "fsr111 pass2 = 1000"
    by (simp_all add: pass2_def)
  show ?thesis
    using record_and_header_delimiters [of pass2 fresh_card initial after_pass1] a
    by (simp add: vals sample_time_def)
qed

end
